theory Spec2Isabelle
  imports Main "HOL-Library.Multiset"
begin

section \<open>Shared data model\<close>

text \<open>
  Modelled from the spec: the declarations of \<^verbatim>\<open>src/types\<close> (Issue, IssueStatus, IssueType,
  CreateIssue, GetIssue) and of \<^verbatim>\<open>FotingoArguments\<close> are not among the sources; only their
  uses are. The records below carry the fields the sources read (\<^verbatim>\<open>issue.key\<close>,
  \<^verbatim>\<open>args.noBranchIssue\<close>, ...) and the fields section 3 of the spec lists for an Issue:
  key, title, type (feature/bug/chore) and status (open, in-progress, resolved, released).
\<close>

datatype issue_type = Feature | Bug | Chore

datatype issue_status = OPEN | IN_PROGRESS | RESOLVED | RELEASED

record issue =
  key :: string
  title :: string
  issueType :: issue_type
  status :: issue_status

text \<open>\<^verbatim>\<open>CreateIssue\<close>, as \<^verbatim>\<open>getCommandData\<close> of the start command builds it.\<close>

record create_issue =
  ci_description :: string
  ci_labels :: "string list"
  ci_project :: string
  ci_title :: string
  ci_type :: issue_type

text \<open>
  \<^verbatim>\<open>CreateIssue | GetIssue\<close>: the two shapes are told apart by \<^verbatim>\<open>has('id')\<close>, so the union is a
  datatype with one constructor for each.
\<close>

datatype issue_request = CreateIssue create_issue | GetIssue string

text \<open>
  The error a tracker call fails with (\<^verbatim>\<open>JiraError\<close>); the sources read its \<^verbatim>\<open>code\<close>
  and compare it with the number 404.
\<close>

record jira_error =
  code :: int
  message :: string

text \<open>The error taxonomy of the VCS adapter (section 4.1 of the spec, \<^verbatim>\<open>GitErrorType\<close>).\<close>

datatype git_error_type = NOT_A_GIT_REPO | BRANCH_ALREADY_EXISTS | NO_REMOTE | GIT_COMMAND_FAILED

record git_error =
  gcode :: git_error_type
  gmessage :: string

datatype emoji = BUG | TADA | BOOKMARK

text \<open>
  What a run does to its collaborators, in the order it does it: the messages given to
  the messenger, the calls on the tracker and on the git adapter, the precondition checks
  a command starts and the call of its \<^verbatim>\<open>runCmd\<close>.
\<close>

datatype event =
    Emit string emoji
  | TrackerGetIssue string
  | TrackerCreateIssueForCurrentUser create_issue
  | TrackerSetIssueStatus issue_status string
  | GitGetBranchNameForIssue issue
  | GitCreateBranchAndStashChanges string
  | ValidationStarted nat
  | RunCmd

datatype failure = TrackerError jira_error | GitError git_error | JsError string

text \<open>
  The tracker client and the git adapter are collaborators of the pipelines: their
  answers are parameters. A tracker call answers with one issue or fails
  (section 4.2 of the spec).
\<close>

record tracker =
  tracker_getIssue :: "string \<Rightarrow> jira_error + issue"
  tracker_createIssueForCurrentUser :: "create_issue \<Rightarrow> jira_error + issue"
  tracker_setIssueStatus :: "issue_status \<Rightarrow> string \<Rightarrow> jira_error + issue"
  tracker_isValidIssueName :: "string \<Rightarrow> bool"

record git_adapter =
  git_getBranchNameForIssue :: "issue \<Rightarrow> string"
  git_createBranchAndStashChanges :: "string \<Rightarrow> git_error + unit"

subsection \<open>Single-valued observables\<close>

text \<open>
  An observable that emits one value or fails, together with the events its subscription
  causes. \<^verbatim>\<open>of\<close>, \<^verbatim>\<open>map\<close>, \<^verbatim>\<open>tap\<close> and \<^verbatim>\<open>switchMap\<close> of rxjs on such observables: an error
  of the source skips every later operator.
\<close>

type_synonym 'a obs = "event list \<times> (failure + 'a)"

definition of_obs :: "'a \<Rightarrow> 'a obs" where
  "of_obs x = ([], Inr x)"

definition map_obs :: "('a \<Rightarrow> 'b) \<Rightarrow> 'a obs \<Rightarrow> 'b obs" where
  "map_obs f src = (case src of (es, Inl e) \<Rightarrow> (es, Inl e) | (es, Inr x) \<Rightarrow> (es, Inr (f x)))"

definition tap_obs :: "('a \<Rightarrow> event list) \<Rightarrow> 'a obs \<Rightarrow> 'a obs" where
  "tap_obs f src = (case src of (es, Inl e) \<Rightarrow> (es, Inl e) | (es, Inr x) \<Rightarrow> (es @ f x, Inr x))"

definition switchMap :: "('a \<Rightarrow> 'b obs) \<Rightarrow> 'a obs \<Rightarrow> 'b obs" where
  "switchMap f src =
     (case src of
        (es, Inl e) \<Rightarrow> (es, Inl e)
      | (es, Inr x) \<Rightarrow> (case f x of (es', r) \<Rightarrow> (es @ es', r)))"

section \<open>The start command\<close>

text \<open>
  A flag of the command line is \<^verbatim>\<open>true\<close>, \<^verbatim>\<open>false\<close> or absent (\<^verbatim>\<open>undefined\<close>); the code
  only tests its truthiness (\<^verbatim>\<open>!args.noBranchIssue\<close>, \<^verbatim>\<open>args.create ? ... : ...\<close>).
\<close>

type_synonym flag = "bool option"

definition flag_set :: "flag \<Rightarrow> bool" where
  "flag_set f = (f = Some True)"

record fotingo_arguments =
  noBranchIssue :: flag
  create :: flag
  description :: string
  labels :: "string list"
  project :: string
  issueTitle :: string
  type_arg :: issue_type
  issueId :: string

record start_git =
  createBranch :: bool

record start_data =
  sd_git :: start_git
  sd_issue :: issue_request

record issue_and_start_data =
  commandData :: start_data
  isd_issue :: issue

datatype result = Void | IssueResult issue

definition getCommandData :: "fotingo_arguments \<Rightarrow> start_data" where
  "getCommandData args =
     \<lparr> sd_git = \<lparr> createBranch = \<not> flag_set (noBranchIssue args) \<rparr>,
       sd_issue =
         (if flag_set (create args)
          then CreateIssue
                 \<lparr> ci_description = description args, ci_labels = labels args,
                   ci_project = project args, ci_title = issueTitle args,
                   ci_type = type_arg args \<rparr>
          else GetIssue (issueId args)) \<rparr>"

definition getOrCreateIssue :: "tracker \<Rightarrow> start_data \<Rightarrow> issue obs" where
  "getOrCreateIssue t d =
     (case sd_issue d of
        GetIssue i \<Rightarrow>
          ([Emit (''Getting '' @ i @ '' from Jira'') BUG, TrackerGetIssue i],
           map_sum TrackerError id (tracker_getIssue t i))
      | CreateIssue c \<Rightarrow>
          ([Emit ''Creating issue in Jira'' BUG, TrackerCreateIssueForCurrentUser c],
           map_sum TrackerError id (tracker_createIssueForCurrentUser t c)))"

definition setIssueInProgress :: "tracker \<Rightarrow> issue \<Rightarrow> issue obs" where
  "setIssueInProgress t i =
     ([TrackerSetIssueStatus IN_PROGRESS (key i)],
      map_sum TrackerError id (tracker_setIssueStatus t IN_PROGRESS (key i)))"

definition shouldCreateBranch :: "issue_and_start_data \<Rightarrow> bool" where
  "shouldCreateBranch d = (createBranch (sd_git (commandData d)) = True)"

definition createBranch_step :: "git_adapter \<Rightarrow> issue_and_start_data \<Rightarrow> result obs" where
  "createBranch_step g d =
     (let name = git_getBranchNameForIssue g (isd_issue d) in
      ([GitGetBranchNameForIssue (isd_issue d),
        Emit (''Creating branch '' @ name) TADA,
        GitCreateBranchAndStashChanges name],
       map_sum GitError (\<lambda>_. Void) (git_createBranchAndStashChanges g name)))"

definition justReturnTheIssue :: "issue_and_start_data \<Rightarrow> result obs" where
  "justReturnTheIssue d = of_obs (IssueResult (isd_issue d))"

definition cmd :: "fotingo_arguments \<Rightarrow> tracker \<Rightarrow> git_adapter \<Rightarrow> result obs" where
  "cmd args t g =
     (let commandData' = map_obs getCommandData (of_obs args) in
      switchMap (\<lambda>d. if shouldCreateBranch d then createBranch_step g d else justReturnTheIssue d)
        (switchMap (\<lambda>i. map_obs (\<lambda>cd. \<lparr> commandData = cd, isd_issue = i \<rparr>) commandData')
          (switchMap (setIssueInProgress t)
            (tap_obs (\<lambda>i. [Emit (''Setting '' @ key i @ '' in progress'') BOOKMARK])
              (switchMap (getOrCreateIssue t) commandData')))))"


section \<open>The command base class\<close>

text \<open>
  Modelled from the spec: \<^verbatim>\<open>BranchInfo\<close> and \<^verbatim>\<open>LocalChanges\<close> are declared outside the
  sources; section 3 of the spec gives their fields, and \<^verbatim>\<open>getLocalChangesInformation\<close>
  reads the property \<^verbatim>\<open>issue\<close> of every element of \<^verbatim>\<open>branchInfo.issues\<close>.
\<close>

record commit =
  hash :: string
  author :: string
  date :: string
  commit_message :: string

record branch_issue =
  bi_issue :: string

record branch_info =
  bi_name :: string
  bi_commits :: "commit list"
  bi_issues :: "branch_issue list"

record local_changes =
  lc_branchInfo :: branch_info
  lc_issues :: "issue list"

text \<open>
  The argument of \<^verbatim>\<open>getLocalChangesInformation\<close> is a branch info alone, or a pair of a
  branch info and \<^verbatim>\<open>{ issues?, tracker: { enabled } }\<close>.
\<close>

record lc_options =
  opt_issues :: "string list option"
  opt_tracker_enabled :: bool

datatype lc_input = BranchOnly branch_info | WithOptions branch_info lc_options

text \<open>\<^verbatim>\<open>Array.prototype.join\<close> on strings.\<close>

fun join :: "string \<Rightarrow> string list \<Rightarrow> string" where
  "join sep [] = []"
| "join sep [x] = x"
| "join sep (x # y # ys) = x @ sep @ join sep (y # ys)"

text \<open>
  Concurrent work: \<^verbatim>\<open>merge\<close> subscribes to its inputs in the order given and passes on what
  they deliver as it arrives. The \<open>i\<close>-th input delivers at time \<open>arrival i\<close>; inputs
  that deliver at the same time do so in subscription order.
\<close>

definition completionOrder :: "nat list \<Rightarrow> 'a list \<Rightarrow> 'a list" where
  "completionOrder ts xs = map snd (sort_key fst (zip ts xs))"

subsection \<open>getLocalChangesInformation\<close>

text \<open>The destructuring of the argument, with its defaults.\<close>

definition lc_branch :: "lc_input \<Rightarrow> branch_info" where
  "lc_branch d = (case d of BranchOnly b \<Rightarrow> b | WithOptions b opts \<Rightarrow> b)"

definition lc_extra_issues :: "lc_input \<Rightarrow> string list" where
  "lc_extra_issues d =
     (case d of
        BranchOnly b \<Rightarrow> []
      | WithOptions b opts \<Rightarrow> (case opt_issues opts of None \<Rightarrow> [] | Some ks \<Rightarrow> ks))"

definition lc_tracker_enabled :: "lc_input \<Rightarrow> bool" where
  "lc_tracker_enabled d = (case d of BranchOnly b \<Rightarrow> True | WithOptions b opts \<Rightarrow> opt_tracker_enabled opts)"

definition allIssues :: "lc_input \<Rightarrow> string list" where
  "allIssues d = map bi_issue (bi_issues (lc_branch d)) @ lc_extra_issues d"

text \<open>
  One lookup, \<^verbatim>\<open>getIssue(issue).pipe(catchError(...))\<close>: it delivers the issue, completes
  without a value when the tracker fails with code 404 (\<^verbatim>\<open>EMPTY\<close>), and fails with any
  other error.
\<close>

definition lookup :: "tracker \<Rightarrow> string \<Rightarrow> jira_error + issue option" where
  "lookup t k =
     (case tracker_getIssue t k of
        Inr i \<Rightarrow> Inr (Some i)
      | Inl e \<Rightarrow> if code e = 404 then Inr None else Inl e)"

text \<open>
  \<^verbatim>\<open>merge(...).pipe(reduce((accumulator, value) => [...accumulator, value], []))\<close> over the
  lookups in the order they complete: the first error fails the whole stream.
\<close>

fun reduce_merged :: "issue list \<Rightarrow> (jira_error + issue option) list \<Rightarrow> jira_error + issue list" where
  "reduce_merged acc [] = Inr acc"
| "reduce_merged acc (Inl e # rs) = Inl e"
| "reduce_merged acc (Inr None # rs) = reduce_merged acc rs"
| "reduce_merged acc (Inr (Some i) # rs) = reduce_merged (acc @ [i]) rs"

definition getLocalChangesInformation ::
    "tracker \<Rightarrow> (nat \<Rightarrow> nat) \<Rightarrow> lc_input \<Rightarrow> local_changes obs" where
  "getLocalChangesInformation t arrival d =
     (if \<not> lc_tracker_enabled d
      then of_obs \<lparr> lc_branchInfo = lc_branch d, lc_issues = [] \<rparr>
      else
        let keys = filter (tracker_isValidIssueName t) (allIssues d) in
        ((if length (allIssues d) > 0
          then [Emit (''Getting information for '' @ join '', '' (allIssues d)) BUG]
          else [])
         @ map TrackerGetIssue keys,
         map_sum TrackerError (\<lambda>found. \<lparr> lc_branchInfo = lc_branch d, lc_issues = found \<rparr>)
           (reduce_merged []
             (completionOrder (map arrival [0..<length keys]) (map (lookup t) keys)))))"

subsection \<open>validate and run\<close>

text \<open>
  A registered check is a pair of a validation and a message. The validation, once
  called, delivers a boolean or fails.
\<close>

type_synonym validation = "(failure + bool) \<times> string"

definition returnIfFalse :: "string \<Rightarrow> bool \<Rightarrow> string option" where
  "returnIfFalse msg v = (if v = True then None else Some msg)"

text \<open>
  \<^verbatim>\<open>switchMap((message) => message === undefined ? of(undefined) : throwError(new Error(message)))\<close>
  over what the merged checks deliver, in the order they deliver it.
\<close>

fun throwOnMessage :: "(failure + string option) list \<Rightarrow> failure + unit list" where
  "throwOnMessage [] = Inr []"
| "throwOnMessage (Inl e # rs) = Inl e"
| "throwOnMessage (Inr (Some msg) # rs) = Inl (JsError msg)"
| "throwOnMessage (Inr None # rs) = map_sum id ((#) ()) (throwOnMessage rs)"

text \<open>\<^verbatim>\<open>last()\<close>: the last value of a stream that completes; an empty stream is an error.\<close>

definition last_obs :: "failure + unit list \<Rightarrow> failure + unit" where
  "last_obs r =
     (case r of
        Inl e \<Rightarrow> Inl e
      | Inr [] \<Rightarrow> Inl (JsError ''no elements in sequence'')
      | Inr (v # vs) \<Rightarrow> Inr (last (v # vs)))"

text \<open>
  Every validation is called while the argument list of \<^verbatim>\<open>merge\<close> is built; the extra
  \<^verbatim>\<open>of(undefined)\<close> is subscribed last and delivers at once.
\<close>

definition validate :: "(nat \<Rightarrow> nat) \<Rightarrow> validation list \<Rightarrow> unit obs" where
  "validate arrival checks =
     (map ValidationStarted [0..<length checks],
      last_obs
        (throwOnMessage
          (completionOrder (map arrival [0..<length checks] @ [0])
            (map (\<lambda>(v, msg). map_sum id (returnIfFalse msg) v) checks @ [Inr None]))))"

text \<open>
  The observable that \<^verbatim>\<open>run\<close> hands to the user interface:
  \<^verbatim>\<open>this.validate(commandData$).pipe(switchMap(() => this.runCmd(commandData$)))\<close>. The
  command's own \<^verbatim>\<open>runCmd\<close> is a parameter: the events it causes and what it delivers.
\<close>

definition run :: "(nat \<Rightarrow> nat) \<Rightarrow> validation list \<Rightarrow> 'a obs \<Rightarrow> 'a obs" where
  "run arrival checks runCmd =
     switchMap (\<lambda>_. (RunCmd # fst runCmd, snd runCmd)) (validate arrival checks)"


section \<open>The VCS adapter\<close>

text \<open>
  Modelled from the spec: the class \<^verbatim>\<open>Git\<close> (\<^verbatim>\<open>src/git/Git.ts\<close>) is not among the sources;
  its test \<^verbatim>\<open>test/git/Git.test.ts\<close> is. The adapter is modelled from section 4.1 of the
  spec, over the interface the test mocks: the wrapped git library is a record of the
  answers its operations give, and a run of the adapter yields the calls it makes on the
  library, in order, and its result.
\<close>

text \<open>
  Modelled from the spec: \<^verbatim>\<open>GitConfig\<close> (section 3): remote name, base branch name and
  branch-naming template.
\<close>

record git_config =
  remote :: string
  baseBranch :: string
  branchTemplate :: string

record git_remote =
  r_name :: string
  r_fetch :: string
  r_push :: string

text \<open>
  Modelled from the spec: the failures of the underlying tool that the adapter's error
  taxonomy tells apart (section 4.1): a branch of that name exists (the test's
  \<^verbatim>\<open>A branch named ... already exists\<close>), the directory is no repository, and any other
  failure with the tool's output.
\<close>

datatype tool_error = BranchExists string | NotARepository | ToolFailed string

datatype git_call =
    Fetch string string
  | Status
  | Stash "string list"
  | Log "string list"
  | CheckoutBranch string string
  | GetRemotes bool

text \<open>
  The mocked library of the test (\<^verbatim>\<open>gitMocks\<close>): \<^verbatim>\<open>status\<close> answers with the changed files,
  \<^verbatim>\<open>log\<close> with the hash of the latest commit of the range asked for.
\<close>

record simple_git =
  sg_fetch :: "tool_error + unit"
  sg_status :: "tool_error + string list"
  sg_stash :: "string list \<Rightarrow> tool_error + unit"
  sg_log :: "string list \<Rightarrow> tool_error + string"
  sg_checkoutBranch :: "string \<Rightarrow> string \<Rightarrow> tool_error + unit"
  sg_getRemotes :: "bool \<Rightarrow> tool_error + git_remote list"

type_synonym 'a git_run = "git_call list \<times> (git_error + 'a)"

text \<open>
  Modelled from the spec: the translation of the tool's errors into the typed taxonomy
  \<^verbatim>\<open>NOT_A_GIT_REPO\<close>, \<^verbatim>\<open>BRANCH_ALREADY_EXISTS\<close> and the generic \<^verbatim>\<open>GIT_COMMAND_FAILED\<close>
  that wraps the tool's output.
\<close>

fun mapError :: "tool_error \<Rightarrow> git_error" where
  "mapError (BranchExists n) =
     \<lparr> gcode = BRANCH_ALREADY_EXISTS, gmessage = ''A branch named '' @ n @ '' already exists'' \<rparr>"
| "mapError NotARepository =
     \<lparr> gcode = NOT_A_GIT_REPO, gmessage = ''not a git repository'' \<rparr>"
| "mapError (ToolFailed out) = \<lparr> gcode = GIT_COMMAND_FAILED, gmessage = out \<rparr>"

definition git_step :: "git_call \<Rightarrow> tool_error + 'a \<Rightarrow> 'a git_run" where
  "git_step c answer = ([c], map_sum mapError id answer)"

definition git_then :: "'a git_run \<Rightarrow> ('a \<Rightarrow> 'b git_run) \<Rightarrow> 'b git_run" where
  "git_then r f =
     (case r of
        (cs, Inl e) \<Rightarrow> (cs, Inl e)
      | (cs, Inr x) \<Rightarrow> (case f x of (cs', y) \<Rightarrow> (cs @ cs', y)))"

text \<open>The remote base branch, \<^verbatim>\<open>remotes/<remote>/<baseBranch>\<close> (line 47 of the test).\<close>

definition getRemoteBranch :: "git_config \<Rightarrow> string" where
  "getRemoteBranch cfg = ''remotes/'' @ remote cfg @ ''/'' @ baseBranch cfg"

definition stashArguments :: "string list" where
  "stashArguments = [''save'', ''--include-untracked'', ''Auto generated by fotingo'']"

text \<open>
  Modelled from the spec: \<^verbatim>\<open>createBranchAndStashChanges(name)\<close> "fetches the base branch
  from the remote, stashes any uncommitted changes (only if the working tree is dirty)
  under a fixed auto-generated stash message, then checks out a new branch named
  \<^verbatim>\<open>name\<close> from the tip of the remote base branch". The calls and their arguments are the
  ones the test expects: \<^verbatim>\<open>fetch\<close>, \<^verbatim>\<open>status\<close>, \<^verbatim>\<open>stash\<close> with the fixed arguments,
  \<^verbatim>\<open>log(['-n1', remoteBranch])\<close> and \<^verbatim>\<open>checkoutBranch(name, hash)\<close>; a call that the
  library rejects ends the run with the translated error, as the rejected
  \<^verbatim>\<open>checkoutBranch\<close> of the test does.
\<close>

definition createBranchAndStashChanges :: "git_config \<Rightarrow> simple_git \<Rightarrow> string \<Rightarrow> unit git_run" where
  "createBranchAndStashChanges cfg g name =
     git_then (git_step (Fetch (remote cfg) (baseBranch cfg)) (sg_fetch g)) (\<lambda>_.
     git_then (git_step Status (sg_status g)) (\<lambda>files.
     git_then (if files \<noteq> [] then git_step (Stash stashArguments) (sg_stash g stashArguments)
               else ([], Inr ())) (\<lambda>_.
     git_then (git_step (Log [''-n1'', getRemoteBranch cfg]) (sg_log g [''-n1'', getRemoteBranch cfg]))
       (\<lambda>latest. git_step (CheckoutBranch name latest) (sg_checkoutBranch g name latest)))))"

text \<open>
  Modelled from the spec: \<^verbatim>\<open>getRemote(name)\<close> "returns the named remote; if absent, falls
  back to the first configured remote; fails if no remotes exist". The test expects
  \<^verbatim>\<open>getRemotes(true)\<close> and the error \<^verbatim>\<open>The repository does not have a remote\<close>.
\<close>

definition getRemote :: "simple_git \<Rightarrow> string \<Rightarrow> git_remote git_run" where
  "getRemote g name =
     git_then (git_step (GetRemotes True) (sg_getRemotes g True)) (\<lambda>remotes.
       ([], case find (\<lambda>r. r_name r = name) remotes of
              Some r \<Rightarrow> Inr r
            | None \<Rightarrow>
                (case remotes of
                   [] \<Rightarrow> Inl \<lparr> gcode = NO_REMOTE,
                              gmessage = ''The repository does not have a remote'' \<rparr>
                 | r # _ \<Rightarrow> Inr r)))"

section \<open>The cacheable decorator\<close>

text \<open>
  The values a decorated method resolves to and the store keeps are arbitrary JavaScript
  values; the decorator only tests their truthiness. Numbers are whole numbers or
  \<^verbatim>\<open>NaN\<close> here.
\<close>

datatype jsval =
    JUndefined
  | JNull
  | JBool bool
  | JNum int
  | JNaN
  | JStr string
  | JArr "jsval list"
  | JObj "(string \<times> jsval) list"

fun truthy :: "jsval \<Rightarrow> bool" where
  "truthy JUndefined = False"
| "truthy JNull = False"
| "truthy (JBool b) = b"
| "truthy (JNum n) = (n \<noteq> 0)"
| "truthy JNaN = False"
| "truthy (JStr s) = (s \<noteq> [])"
| "truthy (JArr vs) = True"
| "truthy (JObj fs) = True"

text \<open>
  The key-value store behind \<^verbatim>\<open>keyv\<close>: an entry is a value and the time it expires at,
  if any. \<^verbatim>\<open>get\<close> answers \<^verbatim>\<open>undefined\<close> for a key that is absent or has expired.
\<close>

record entry =
  e_value :: jsval
  e_expires :: "nat option"

type_synonym keyv = "string \<rightharpoonup> entry"

definition keyv_get :: "keyv \<Rightarrow> nat \<Rightarrow> string \<Rightarrow> jsval" where
  "keyv_get store now k =
     (case store k of
        None \<Rightarrow> JUndefined
      | Some e \<Rightarrow>
          (case e_expires e of
             None \<Rightarrow> e_value e
           | Some t \<Rightarrow> if now > t then JUndefined else e_value e))"

definition keyv_set :: "keyv \<Rightarrow> nat \<Rightarrow> string \<Rightarrow> jsval \<Rightarrow> nat option \<Rightarrow> keyv" where
  "keyv_set store now k v ttl =
     store(k \<mapsto> \<lparr> e_value = v, e_expires = map_option (\<lambda>ms. now + ms) ttl \<rparr>)"

text \<open>
  What the decorator is applied with: its options, the name of the class and of the
  method it decorates, whether \<^verbatim>\<open>FOTINGO_DISABLE_CACHE\<close> is set, and \<^verbatim>\<open>JSON.stringify\<close>
  (which answers \<^verbatim>\<open>undefined\<close> for some values).
\<close>

record cacheable_setup =
  getPrefix :: "(jsval list \<Rightarrow> string) option"
  minutes :: "nat option"
  className :: string
  propertyKey :: string
  isCacheDisabled :: bool
  stringify :: "jsval \<Rightarrow> string option"

text \<open>\<^verbatim>\<open>join\<close> turns an \<^verbatim>\<open>undefined\<close> element into the empty string.\<close>

definition keyArguments :: "cacheable_setup \<Rightarrow> jsval list \<Rightarrow> string" where
  "keyArguments c args =
     (if length args > 0
      then ''_'' @ join ''_'' (map (\<lambda>v. case stringify c v of None \<Rightarrow> [] | Some s \<Rightarrow> s) args)
      else [])"

definition cacheKey :: "cacheable_setup \<Rightarrow> jsval list \<Rightarrow> string" where
  "cacheKey c args =
     (case getPrefix c of None \<Rightarrow> [] | Some f \<Rightarrow> f args)
     @ className c @ ''_'' @ propertyKey c @ keyArguments c args"

definition ttl_of :: "cacheable_setup \<Rightarrow> nat option" where
  "ttl_of c =
     (case minutes c of
        None \<Rightarrow> None
      | Some m \<Rightarrow> if m \<noteq> 0 then Some (m * 60 * 1000) else None)"

text \<open>
  A call of the wrapper: the store it leaves, the calls of the decorated method it made
  (their arguments) and what it resolves to or rejects with.
\<close>

record cached_call =
  store_after :: keyv
  invocations :: "jsval list list"
  outcome :: "string + jsval"

definition cachedFunction ::
    "cacheable_setup \<Rightarrow> (jsval list \<Rightarrow> string + jsval) \<Rightarrow> keyv \<Rightarrow> nat \<Rightarrow> jsval list \<Rightarrow> cached_call" where
  "cachedFunction c method store now args =
     (if isCacheDisabled c
      then \<lparr> store_after = store, invocations = [args], outcome = method args \<rparr>
      else
        let k = cacheKey c args;
            cachedValue = keyv_get store now k
        in if truthy cachedValue
           then \<lparr> store_after = store, invocations = [], outcome = Inr cachedValue \<rparr>
           else
             (case method args of
                Inl err \<Rightarrow> \<lparr> store_after = store, invocations = [args], outcome = Inl err \<rparr>
              | Inr result \<Rightarrow>
                  \<lparr> store_after = keyv_set store now k result (ttl_of c),
                    invocations = [args], outcome = Inr result \<rparr>))"


section \<open>Notions used to state the properties\<close>

text \<open>The keys of the tracker lookups among the events of a run, in order.\<close>

fun lookups_of :: "event list \<Rightarrow> string list" where
  "lookups_of [] = []"
| "lookups_of (TrackerGetIssue k # es) = k # lookups_of es"
| "lookups_of (e # es) = lookups_of es"

text \<open>What one lookup adds to the aggregated list of issues.\<close>

fun delivered :: "(jira_error + issue option) \<Rightarrow> issue list" where
  "delivered (Inr (Some i)) = [i]"
| "delivered _ = []"

text \<open>The issues the tracker has for a key: one, or none when it fails.\<close>

definition resolved :: "tracker \<Rightarrow> string \<Rightarrow> issue list" where
  "resolved t k = (case tracker_getIssue t k of Inr i \<Rightarrow> [i] | Inl e \<Rightarrow> [])"

text \<open>
  What a check that does not pass aborts the pipeline with: its own error when the
  validation failed, an error carrying the registered message when it delivered
  anything but \<^verbatim>\<open>true\<close>.
\<close>

fun abort_of :: "validation \<Rightarrow> failure" where
  "abort_of (Inl e, msg) = e"
| "abort_of (Inr b, msg) = JsError msg"

text \<open>A registered check as \<^verbatim>\<open>validate\<close> maps it: \<^verbatim>\<open>validation().pipe(map(returnIfFalse(message)))\<close>.\<close>

definition checked :: "validation \<Rightarrow> failure + string option" where
  "checked c = (case c of (v, msg) \<Rightarrow> map_sum id (returnIfFalse msg) v)"

section \<open>Example runs\<close>

text \<open>The issue, tracker, adapter and arguments of the scenario "start work on ABC-123".\<close>

definition abc_issue :: issue where
  "abc_issue = \<lparr> key = ''ABC-123'', title = ''Fix login'', issueType = Bug, status = OPEN \<rparr>"

text \<open>
  A tracker that knows \<^verbatim>\<open>ABC-123\<close>, is out of order for \<^verbatim>\<open>ABC-500\<close> and has no other issue;
  an issue key starts with \<^verbatim>\<open>ABC-\<close>.
\<close>

definition abc_tracker :: tracker where
  "abc_tracker =
     \<lparr> tracker_getIssue =
         (\<lambda>k. if k = ''ABC-123'' then Inr abc_issue
              else if k = ''ABC-500'' then Inl \<lparr> code = 500, message = ''Internal server error'' \<rparr>
              else Inl \<lparr> code = 404, message = ''Issue not found'' \<rparr>),
       tracker_createIssueForCurrentUser = (\<lambda>c. Inl \<lparr> code = 400, message = ''Bad request'' \<rparr>),
       tracker_setIssueStatus =
         (\<lambda>s k. if k = ''ABC-123'' then Inr (abc_issue \<lparr> status := s \<rparr>)
                else Inl \<lparr> code = 404, message = ''Issue not found'' \<rparr>),
       tracker_isValidIssueName = (\<lambda>k. take 4 k = ''ABC-'') \<rparr>"

definition abc_git :: git_adapter where
  "abc_git =
     \<lparr> git_getBranchNameForIssue = (\<lambda>i. ''b/'' @ key i),
       git_createBranchAndStashChanges = (\<lambda>n. Inr ()) \<rparr>"

definition abc_args :: fotingo_arguments where
  "abc_args =
     \<lparr> noBranchIssue = None, create = None, description = [], labels = [], project = [],
       issueTitle = [], type_arg = Bug, issueId = ''ABC-123'' \<rparr>"

definition abc_args_no_branch :: fotingo_arguments where
  "abc_args_no_branch = abc_args \<lparr> noBranchIssue := Some True \<rparr>"

text \<open>
  A branch whose commits refer to \<^verbatim>\<open>ABC-123\<close>, to something that is no issue key and to
  the unknown \<^verbatim>\<open>ABC-404\<close>; the same with a reference to \<^verbatim>\<open>ABC-500\<close> added by the caller.
\<close>

definition abc_branch :: branch_info where
  "abc_branch =
     \<lparr> bi_name = ''b/ABC-123'', bi_commits = [],
       bi_issues = [\<lparr> bi_issue = ''ABC-123'' \<rparr>, \<lparr> bi_issue = ''wip'' \<rparr>,
                    \<lparr> bi_issue = ''ABC-404'' \<rparr>] \<rparr>"

definition abc_changes :: lc_input where
  "abc_changes = BranchOnly abc_branch"

definition abc_changes_500 :: lc_input where
  "abc_changes_500 =
     WithOptions abc_branch \<lparr> opt_issues = Some [''ABC-500''], opt_tracker_enabled = True \<rparr>"

text \<open>The two checks every command registers, here with a base branch that is missing.\<close>

definition checks_no_base_branch :: "validation list" where
  "checks_no_base_branch =
     [(Inr True, ''Fotingo needs to run inside a git repository''),
      (Inr False, ''Couldn't find any branch that matched master to use as base branch'')]"

definition checks_passing :: "validation list" where
  "checks_passing =
     [(Inr True, ''Fotingo needs to run inside a git repository''),
      (Inr True, ''Couldn't find any branch that matched master to use as base branch'')]"

text \<open>The configuration and the mocks of \<^verbatim>\<open>Git.test.ts\<close>.\<close>

definition test_config :: git_config where
  "test_config = \<lparr> remote = ''origin'', baseBranch = ''master'', branchTemplate = [] \<rparr>"

definition test_remote :: git_remote where
  "test_remote =
     \<lparr> r_name = ''origin'',
       r_fetch = ''git@github.com:tagoro9/fotingo-rewrite.git'',
       r_push = ''git@github.com:tagoro9/fotingo-rewrite.git'' \<rparr>"

definition gitMocks :: simple_git where
  "gitMocks =
     \<lparr> sg_fetch = Inr (),
       sg_status = Inr [],
       sg_stash = (\<lambda>_. Inr ()),
       sg_log = (\<lambda>_. Inr ''547433c''),
       sg_checkoutBranch = (\<lambda>_ _. Inr ()),
       sg_getRemotes = (\<lambda>_. Inr [test_remote]) \<rparr>"

definition gitMocks_dirty :: simple_git where
  "gitMocks_dirty = gitMocks \<lparr> sg_status := Inr [''some file.txt''] \<rparr>"

definition gitMocks_no_remotes :: simple_git where
  "gitMocks_no_remotes = gitMocks \<lparr> sg_getRemotes := (\<lambda>_. Inr []) \<rparr>"

text \<open>A cached tracker read whose stored answer is \<^verbatim>\<open>false\<close>.\<close>

definition demo_setup :: cacheable_setup where
  "demo_setup =
     \<lparr> getPrefix = None, minutes = Some 5, className = ''Jira'', propertyKey = ''isLoggedIn'',
       isCacheDisabled = False, stringify = (\<lambda>v. None) \<rparr>"

definition demo_store :: keyv where
  "demo_store = [''Jira_isLoggedIn'' \<mapsto> \<lparr> e_value = JBool False, e_expires = None \<rparr>]"

definition demo_store_hit :: keyv where
  "demo_store_hit = [''Jira_isLoggedIn'' \<mapsto> \<lparr> e_value = JStr ''yes'', e_expires = None \<rparr>]"

definition demo_method :: "jsval list \<Rightarrow> string + jsval" where
  "demo_method args = Inr (JBool True)"

section \<open>Properties of the start command\<close>

lemmas obs_defs = of_obs_def map_obs_def tap_obs_def switchMap_def

lemmas start_defs = cmd_def obs_defs getCommandData_def getOrCreateIssue_def
  setIssueInProgress_def shouldCreateBranch_def createBranch_step_def justReturnTheIssue_def
  Let_def

text \<open>
  C1. A run of the start command on an existing issue id (\<^verbatim>\<open>create\<close> not set) with branch
  creation enabled (\<^verbatim>\<open>noBranchIssue\<close> not set), in which the tracker and the adapter
  answer, does exactly this, in this order: it fetches the issue from the tracker, sets
  the issue of that key in progress, derives the branch name from the issue the tracker
  answered with, and creates the branch of that name. Each step is announced on the
  messenger first. The value delivered is void, and the branch creation is the only call
  on the git adapter that changes anything.
\<close>

theorem start_existing_issue_creates_branch:
  assumes "\<not> flag_set (create args)"
    and "\<not> flag_set (noBranchIssue args)"
    and "tracker_getIssue t (issueId args) = Inr i"
    and "tracker_setIssueStatus t IN_PROGRESS (key i) = Inr i'"
    and "git_createBranchAndStashChanges g (git_getBranchNameForIssue g i') = Inr ()"
  shows "cmd args t g =
    ([Emit (''Getting '' @ issueId args @ '' from Jira'') BUG,
      TrackerGetIssue (issueId args),
      Emit (''Setting '' @ key i @ '' in progress'') BOOKMARK,
      TrackerSetIssueStatus IN_PROGRESS (key i),
      GitGetBranchNameForIssue i',
      Emit (''Creating branch '' @ git_getBranchNameForIssue g i') TADA,
      GitCreateBranchAndStashChanges (git_getBranchNameForIssue g i')],
     Inr Void)"
  using assms by (simp add: start_defs)

text \<open>C1 at the scenario of the spec: starting work on ABC-123.\<close>

theorem start_existing_issue_creates_branch_witness:
  "cmd abc_args abc_tracker abc_git =
    ([Emit ''Getting ABC-123 from Jira'' BUG,
      TrackerGetIssue ''ABC-123'',
      Emit ''Setting ABC-123 in progress'' BOOKMARK,
      TrackerSetIssueStatus IN_PROGRESS ''ABC-123'',
      GitGetBranchNameForIssue (abc_issue \<lparr> status := IN_PROGRESS \<rparr>),
      Emit ''Creating branch b/ABC-123'' TADA,
      GitCreateBranchAndStashChanges ''b/ABC-123''],
     Inr Void)"
  using start_existing_issue_creates_branch
    [of abc_args abc_tracker abc_issue "abc_issue \<lparr> status := IN_PROGRESS \<rparr>" abc_git]
  by (simp add: abc_args_def abc_tracker_def abc_git_def abc_issue_def flag_set_def)

text \<open>
  C2. When the run is flagged \<^verbatim>\<open>noBranchIssue\<close>, \<^verbatim>\<open>createBranchAndStashChanges\<close> is never
  called, whatever the tracker answers, and once the issue is fetched or created and set
  in progress the pipeline delivers the issue (as the tracker answered the transition
  with it). When the run is not flagged, the branch name is derived from that issue and
  the branch is created under that name, as the last steps of the run; the pipeline then
  delivers void, or fails with the error of the branch creation.
\<close>

theorem start_branch_decision:
  "(flag_set (noBranchIssue args) \<longrightarrow>
      (\<forall>n. GitCreateBranchAndStashChanges n \<notin> set (fst (cmd args t g))) \<and>
      (\<forall>i i'. snd (getOrCreateIssue t (getCommandData args)) = Inr i \<and>
               tracker_setIssueStatus t IN_PROGRESS (key i) = Inr i' \<longrightarrow>
               snd (cmd args t g) = Inr (IssueResult i'))) \<and>
   (\<not> flag_set (noBranchIssue args) \<longrightarrow>
      (\<forall>i i'. snd (getOrCreateIssue t (getCommandData args)) = Inr i \<and>
               tracker_setIssueStatus t IN_PROGRESS (key i) = Inr i' \<longrightarrow>
               (\<exists>es. fst (cmd args t g) =
                       es @ [GitGetBranchNameForIssue i',
                             Emit (''Creating branch '' @ git_getBranchNameForIssue g i') TADA,
                             GitCreateBranchAndStashChanges (git_getBranchNameForIssue g i')]) \<and>
               snd (cmd args t g) =
                 map_sum GitError (\<lambda>_. Void)
                   (git_createBranchAndStashChanges g (git_getBranchNameForIssue g i'))))"
  by (auto simp: start_defs split: sum.splits issue_request.splits prod.splits)

text \<open>C2 at ABC-123, once flagged \<^verbatim>\<open>noBranchIssue\<close> and once not.\<close>

theorem start_branch_decision_witness:
  "flag_set (noBranchIssue abc_args_no_branch) \<and>
   snd (getOrCreateIssue abc_tracker (getCommandData abc_args_no_branch)) = Inr abc_issue \<and>
   tracker_setIssueStatus abc_tracker IN_PROGRESS (key abc_issue)
     = Inr (abc_issue \<lparr> status := IN_PROGRESS \<rparr>) \<and>
   snd (cmd abc_args_no_branch abc_tracker abc_git)
     = Inr (IssueResult (abc_issue \<lparr> status := IN_PROGRESS \<rparr>)) \<and>
   GitCreateBranchAndStashChanges ''b/ABC-123''
     \<notin> set (fst (cmd abc_args_no_branch abc_tracker abc_git)) \<and>
   \<not> flag_set (noBranchIssue abc_args) \<and>
   snd (cmd abc_args abc_tracker abc_git) = Inr Void \<and>
   (\<exists>es. fst (cmd abc_args abc_tracker abc_git) =
       es @ [GitGetBranchNameForIssue (abc_issue \<lparr> status := IN_PROGRESS \<rparr>),
             Emit ''Creating branch b/ABC-123'' TADA,
             GitCreateBranchAndStashChanges ''b/ABC-123''])"
proof -
  have a: "flag_set (noBranchIssue abc_args_no_branch)"
    by (simp add: abc_args_no_branch_def flag_set_def)
  have b: "\<not> flag_set (noBranchIssue abc_args)"
    by (simp add: abc_args_def flag_set_def)
  have c: "snd (getOrCreateIssue abc_tracker (getCommandData abc_args_no_branch)) = Inr abc_issue"
    by (simp add: abc_args_no_branch_def abc_args_def abc_tracker_def getOrCreateIssue_def
        getCommandData_def flag_set_def)
  have d: "snd (getOrCreateIssue abc_tracker (getCommandData abc_args)) = Inr abc_issue"
    by (simp add: abc_args_def abc_tracker_def getOrCreateIssue_def
        getCommandData_def flag_set_def)
  have e: "tracker_setIssueStatus abc_tracker IN_PROGRESS (key abc_issue)
     = Inr (abc_issue \<lparr> status := IN_PROGRESS \<rparr>)"
    by (simp add: abc_tracker_def abc_issue_def)
  have f: "git_getBranchNameForIssue abc_git (abc_issue \<lparr> status := IN_PROGRESS \<rparr>)
     = ''b/ABC-123''"
    by (simp add: abc_git_def abc_issue_def)
  have g: "git_createBranchAndStashChanges abc_git ''b/ABC-123'' = Inr ()"
    by (simp add: abc_git_def)
  from start_branch_decision [of abc_args_no_branch abc_tracker abc_git] a c e
  have 1: "snd (cmd abc_args_no_branch abc_tracker abc_git)
     = Inr (IssueResult (abc_issue \<lparr> status := IN_PROGRESS \<rparr>)) \<and>
   GitCreateBranchAndStashChanges ''b/ABC-123''
     \<notin> set (fst (cmd abc_args_no_branch abc_tracker abc_git))"
    by blast
  from start_branch_decision [of abc_args abc_tracker abc_git] b d e
  have 2: "snd (cmd abc_args abc_tracker abc_git) = Inr Void \<and>
   (\<exists>es. fst (cmd abc_args abc_tracker abc_git) =
       es @ [GitGetBranchNameForIssue (abc_issue \<lparr> status := IN_PROGRESS \<rparr>),
             Emit ''Creating branch b/ABC-123'' TADA,
             GitCreateBranchAndStashChanges ''b/ABC-123''])"
    by (simp add: f g)
  from a b c e 1 2 show ?thesis by blast
qed

section \<open>Properties of the command base class\<close>

subsection \<open>Delivery order\<close>

lemma mset_completionOrder:
  assumes "length ts = length xs"
  shows "mset (completionOrder ts xs) = mset xs"
proof -
  have "mset (completionOrder ts xs) = image_mset snd (mset (sort_key fst (zip ts xs)))"
    by (simp add: completionOrder_def)
  also have "\<dots> = image_mset snd (mset (zip ts xs))"
    by simp
  also have "\<dots> = mset (map snd (zip ts xs))"
    by simp
  also have "\<dots> = mset xs"
    using assms by simp
  finally show ?thesis .
qed

lemma set_completionOrder:
  "length ts = length xs \<Longrightarrow> set (completionOrder ts xs) = set xs"
  using mset_completionOrder [of ts xs] by (metis set_mset_mset)

lemma mset_concat_map_cong:
  assumes "mset xs = mset ys"
  shows "mset (concat (map f xs)) = mset (concat (map f ys))"
proof -
  have "mset (concat (map f zs)) = (\<Sum>z\<in>#mset zs. mset (f z))" for zs
    by (induction zs) simp_all
  with assms show ?thesis by simp
qed

subsection \<open>Aggregated issue resolution\<close>

lemma lookups_of_append: "lookups_of (xs @ ys) = lookups_of xs @ lookups_of ys"
  by (induction xs rule: lookups_of.induct) simp_all

lemma lookups_of_map: "lookups_of (map TrackerGetIssue ks) = ks"
  by (induction ks) simp_all

lemma lookup_cases:
  "lookup t k = Inl e \<longleftrightarrow> tracker_getIssue t k = Inl e \<and> code e \<noteq> 404"
  "lookup t k = Inr None \<longleftrightarrow> (\<exists>e. tracker_getIssue t k = Inl e \<and> code e = 404)"
  "lookup t k = Inr (Some i) \<longleftrightarrow> tracker_getIssue t k = Inr i"
  by (auto simp: lookup_def split: sum.splits)

lemma delivered_lookup: "delivered (lookup t k) = resolved t k"
  by (auto simp: lookup_def resolved_def split: sum.splits)

lemma reduce_merged_Inr:
  "reduce_merged acc rs = Inr found \<Longrightarrow> found = acc @ concat (map delivered rs)"
  by (induction acc rs rule: reduce_merged.induct) simp_all

lemma reduce_merged_Inl:
  "reduce_merged acc rs = Inl e \<Longrightarrow> Inl e \<in> set rs"
  by (induction acc rs rule: reduce_merged.induct) simp_all

lemma reduce_merged_all_ok:
  "\<forall>r\<in>set rs. \<exists>v. r = Inr v \<Longrightarrow>
   reduce_merged acc rs = Inr (acc @ concat (map delivered rs))"
proof (induction rs arbitrary: acc)
  case Nil
  then show ?case by simp
next
  case (Cons r rs)
  then obtain v where r: "r = Inr v" by auto
  show ?case
  proof (cases v)
    case None
    with r Cons show ?thesis by simp
  next
    case (Some i)
    with r Cons show ?thesis by simp
  qed
qed

lemma reduce_merged_error:
  "\<exists>e. Inl e \<in> set rs \<Longrightarrow> \<exists>e. Inl e \<in> set rs \<and> (\<forall>acc. reduce_merged acc rs = Inl e)"
proof (induction rs)
  case Nil
  then show ?case by simp
next
  case (Cons r rs)
  show ?case
  proof (cases r)
    case (Inl e)
    then show ?thesis by auto
  next
    case (Inr v)
    with Cons.prems have "\<exists>e. Inl e \<in> set rs" by auto
    with Cons.IH obtain e where "Inl e \<in> set rs" and "\<forall>acc. reduce_merged acc rs = Inl e"
      by blast
    then show ?thesis using Inr by (cases v) auto
  qed
qed

lemma lc_result:
  assumes "lc_tracker_enabled d"
  shows "snd (getLocalChangesInformation t arrival d) =
    map_sum TrackerError (\<lambda>found. \<lparr> lc_branchInfo = lc_branch d, lc_issues = found \<rparr>)
      (reduce_merged []
        (completionOrder
           (map arrival [0..<length (filter (tracker_isValidIssueName t) (allIssues d))])
           (map (lookup t) (filter (tracker_isValidIssueName t) (allIssues d)))))"
  using assms by (simp add: getLocalChangesInformation_def Let_def)

lemma set_lc_lookups:
  "set (completionOrder
          (map arrival [0..<length (filter (tracker_isValidIssueName t) (allIssues d))])
          (map (lookup t) (filter (tracker_isValidIssueName t) (allIssues d))))
   = lookup t ` set (filter (tracker_isValidIssueName t) (allIssues d))"
  by (simp add: set_completionOrder)

lemmas lc_example_defs = getLocalChangesInformation_def Let_def of_obs_def completionOrder_def
  lookup_def allIssues_def lc_branch_def lc_extra_issues_def lc_tracker_enabled_def
  abc_changes_def abc_changes_500_def abc_branch_def abc_tracker_def

text \<open>
  C7. The tracker is asked for exactly the keys that pass \<^verbatim>\<open>isValidIssueName\<close>, in the
  order they are given (and for none when the tracker is disabled). Every issue of the
  resulting LocalChanges is the tracker's answer for a valid key, so a key that fails
  the pattern contributes nothing, and a failure of the operation is always the
  tracker's error for a valid key: a key that fails the pattern never makes it fail.
\<close>

theorem lookups_only_for_valid_keys:
  "lookups_of (fst (getLocalChangesInformation t arrival d)) =
     (if lc_tracker_enabled d then filter (tracker_isValidIssueName t) (allIssues d) else []) \<and>
   (\<forall>lc. snd (getLocalChangesInformation t arrival d) = Inr lc \<longrightarrow>
      (\<forall>i\<in>set (lc_issues lc). \<exists>k\<in>set (allIssues d).
          tracker_isValidIssueName t k \<and> tracker_getIssue t k = Inr i)) \<and>
   (\<forall>f. snd (getLocalChangesInformation t arrival d) = Inl f \<longrightarrow>
      (\<exists>k\<in>set (allIssues d). \<exists>e.
          tracker_isValidIssueName t k \<and> tracker_getIssue t k = Inl e \<and> f = TrackerError e))"
proof (cases "lc_tracker_enabled d")
  case False
  then show ?thesis
    by (simp add: getLocalChangesInformation_def of_obs_def)
next
  case True
  let ?keys = "filter (tracker_isValidIssueName t) (allIssues d)"
  let ?rs = "completionOrder (map arrival [0..<length ?keys]) (map (lookup t) ?keys)"
  have st: "set ?rs = lookup t ` set ?keys"
    by (rule set_lc_lookups)
  have ev: "lookups_of (fst (getLocalChangesInformation t arrival d)) = ?keys"
    using True
    by (simp add: getLocalChangesInformation_def Let_def lookups_of_append lookups_of_map)
  have ok: "\<exists>k\<in>set (allIssues d). tracker_isValidIssueName t k \<and> tracker_getIssue t k = Inr i"
    if "snd (getLocalChangesInformation t arrival d) = Inr lc" and "i \<in> set (lc_issues lc)"
    for lc i
  proof -
    from that(1) True obtain found where "reduce_merged [] ?rs = Inr found"
      and "lc_issues lc = found"
      by (auto simp: lc_result map_sum_def split: sum.splits)
    with that(2) have "i \<in> set (concat (map delivered ?rs))"
      using reduce_merged_Inr [of "[]" ?rs found] by simp
    then obtain r where "r \<in> set ?rs" and "i \<in> set (delivered r)" by auto
    then obtain k where "k \<in> set ?keys" and "i \<in> set (delivered (lookup t k))"
      unfolding st by auto
    then show ?thesis
      by (auto simp: delivered_lookup resolved_def split: sum.splits)
  qed
  have bad: "\<exists>k\<in>set (allIssues d). \<exists>e.
          tracker_isValidIssueName t k \<and> tracker_getIssue t k = Inl e \<and> f = TrackerError e"
    if "snd (getLocalChangesInformation t arrival d) = Inl f" for f
  proof -
    from that True obtain e where "reduce_merged [] ?rs = Inl e" and f: "f = TrackerError e"
      by (auto simp: lc_result map_sum_def split: sum.splits)
    then have "Inl e \<in> set ?rs" by (simp add: reduce_merged_Inl)
    then obtain k where "k \<in> set ?keys" and "lookup t k = Inl e"
      unfolding st by (metis imageE)
    with f show ?thesis by (auto simp: lookup_cases)
  qed
  from True ev ok bad show ?thesis by simp
qed

text \<open>
  C7 on a branch that refers to ABC-123, to \<^verbatim>\<open>wip\<close> (no issue key) and to the unknown
  ABC-404, the later lookup answering first: \<^verbatim>\<open>wip\<close> is never looked up and the
  operation succeeds with the one issue.
\<close>

theorem lookups_only_for_valid_keys_witness:
  "lookups_of (fst (getLocalChangesInformation abc_tracker (\<lambda>i. 2 - i) abc_changes))
     = [''ABC-123'', ''ABC-404''] \<and>
   \<not> tracker_isValidIssueName abc_tracker ''wip'' \<and>
   snd (getLocalChangesInformation abc_tracker (\<lambda>i. 2 - i) abc_changes)
     = Inr \<lparr> lc_branchInfo = abc_branch, lc_issues = [abc_issue] \<rparr> \<and>
   tracker_isValidIssueName abc_tracker ''ABC-123'' \<and>
   tracker_getIssue abc_tracker ''ABC-123'' = Inr abc_issue \<and>
   snd (getLocalChangesInformation abc_tracker (\<lambda>i. 2 - i) abc_changes_500)
     = Inl (TrackerError \<lparr> code = 500, message = ''Internal server error'' \<rparr>) \<and>
   tracker_isValidIssueName abc_tracker ''ABC-500''"
  using lookups_only_for_valid_keys [of abc_tracker "\<lambda>i. 2 - i" abc_changes]
    lookups_only_for_valid_keys [of abc_tracker "\<lambda>i. 2 - i" abc_changes_500]
  by (simp add: lc_example_defs)

text \<open>
  C8. With the tracker enabled: when every lookup of a valid key succeeds or fails with
  code 404, the aggregate succeeds, and its issues are exactly the answers of the lookups
  that succeeded (the keys that failed with 404 are left out; the order is the order in
  which the lookups complete). When the lookup of some valid key fails with another
  code, the whole aggregate fails, with such an error of one of the lookups.
\<close>

theorem not_found_swallowed_other_errors_fail:
  assumes "lc_tracker_enabled d"
  shows "((\<forall>k\<in>set (allIssues d). tracker_isValidIssueName t k \<longrightarrow>
             (\<forall>e. tracker_getIssue t k = Inl e \<longrightarrow> code e = 404)) \<longrightarrow>
          (\<exists>found. snd (getLocalChangesInformation t arrival d) =
                      Inr \<lparr> lc_branchInfo = lc_branch d, lc_issues = found \<rparr> \<and>
                   mset found =
                     mset (concat (map (resolved t)
                       (filter (tracker_isValidIssueName t) (allIssues d)))))) \<and>
         ((\<exists>k\<in>set (allIssues d). tracker_isValidIssueName t k \<and>
             (\<exists>e. tracker_getIssue t k = Inl e \<and> code e \<noteq> 404)) \<longrightarrow>
          (\<exists>k\<in>set (allIssues d). \<exists>e. tracker_isValidIssueName t k \<and>
             tracker_getIssue t k = Inl e \<and> code e \<noteq> 404 \<and>
             snd (getLocalChangesInformation t arrival d) = Inl (TrackerError e)))"
proof -
  let ?keys = "filter (tracker_isValidIssueName t) (allIssues d)"
  let ?rs = "completionOrder (map arrival [0..<length ?keys]) (map (lookup t) ?keys)"
  have ms: "mset ?rs = mset (map (lookup t) ?keys)"
    by (rule mset_completionOrder) simp
  have st: "set ?rs = lookup t ` set ?keys"
    by (rule set_lc_lookups)
  have swallowed: "\<exists>found. snd (getLocalChangesInformation t arrival d) =
                      Inr \<lparr> lc_branchInfo = lc_branch d, lc_issues = found \<rparr> \<and>
                   mset found = mset (concat (map (resolved t) ?keys))"
    if ok: "\<forall>k\<in>set (allIssues d). tracker_isValidIssueName t k \<longrightarrow>
             (\<forall>e. tracker_getIssue t k = Inl e \<longrightarrow> code e = 404)"
  proof -
    have "\<forall>r\<in>set ?rs. \<exists>v. r = Inr v"
      unfolding st using ok by (auto simp: lookup_def split: sum.splits)
    then have red: "reduce_merged [] ?rs = Inr (concat (map delivered ?rs))"
      using reduce_merged_all_ok [of ?rs "[]"] by simp
    have "mset (concat (map delivered ?rs)) = mset (concat (map delivered (map (lookup t) ?keys)))"
      by (rule mset_concat_map_cong) (rule ms)
    also have "\<dots> = mset (concat (map (resolved t) ?keys))"
      by (simp add: comp_def delivered_lookup)
    finally show ?thesis
      using red assms by (simp add: lc_result)
  qed
  have fails: "\<exists>k\<in>set (allIssues d). \<exists>e. tracker_isValidIssueName t k \<and>
             tracker_getIssue t k = Inl e \<and> code e \<noteq> 404 \<and>
             snd (getLocalChangesInformation t arrival d) = Inl (TrackerError e)"
    if bad: "\<exists>k\<in>set (allIssues d). tracker_isValidIssueName t k \<and>
             (\<exists>e. tracker_getIssue t k = Inl e \<and> code e \<noteq> 404)"
  proof -
    from bad obtain k0 e0 where "k0 \<in> set ?keys" and "lookup t k0 = Inl e0"
      by (auto simp: lookup_cases)
    then have "Inl e0 \<in> set ?rs"
      unfolding st by (metis imageI)
    then have "\<exists>e. Inl e \<in> set ?rs" ..
    then obtain e where e: "Inl e \<in> set ?rs" and r: "reduce_merged [] ?rs = Inl e"
      using reduce_merged_error [of ?rs] by blast
    from e obtain k where k: "k \<in> set ?keys" and l: "lookup t k = Inl e"
      unfolding st by (metis imageE)
    from r assms have "snd (getLocalChangesInformation t arrival d) = Inl (TrackerError e)"
      by (simp add: lc_result)
    with k l show ?thesis
      by (auto simp: lookup_cases)
  qed
  from swallowed fails show ?thesis by blast
qed

text \<open>
  C8 on the branch that refers to ABC-123 and to the unknown ABC-404: the aggregate is
  the one issue. With ABC-500 added, for which the tracker fails with code 500, the whole
  aggregate fails with that error.
\<close>

theorem not_found_swallowed_other_errors_fail_witness:
  "lc_tracker_enabled abc_changes \<and>
   code (\<lparr> code = 404, message = ''Issue not found'' \<rparr> :: jira_error) = 404 \<and>
   tracker_getIssue abc_tracker ''ABC-404'' = Inl \<lparr> code = 404, message = ''Issue not found'' \<rparr> \<and>
   snd (getLocalChangesInformation abc_tracker (\<lambda>i. 2 - i) abc_changes)
     = Inr \<lparr> lc_branchInfo = abc_branch, lc_issues = [abc_issue] \<rparr> \<and>
   lc_tracker_enabled abc_changes_500 \<and>
   tracker_getIssue abc_tracker ''ABC-500''
     = Inl \<lparr> code = 500, message = ''Internal server error'' \<rparr> \<and>
   snd (getLocalChangesInformation abc_tracker (\<lambda>i. 2 - i) abc_changes_500)
     = Inl (TrackerError \<lparr> code = 500, message = ''Internal server error'' \<rparr>)"
  using not_found_swallowed_other_errors_fail [of abc_changes abc_tracker "\<lambda>i. 2 - i"]
    not_found_swallowed_other_errors_fail [of abc_changes_500 abc_tracker "\<lambda>i. 2 - i"]
  by (simp add: lc_example_defs)

subsection \<open>Validation\<close>

lemma checked_pass: "checked c = Inr None \<longleftrightarrow> fst c = Inr True"
  by (cases c; cases "fst c") (auto simp: checked_def returnIfFalse_def)

lemma throwOnMessage_pass:
  "\<forall>r\<in>set rs. r = Inr None \<Longrightarrow> throwOnMessage rs = Inr (replicate (length rs) ())"
  by (induction rs) auto

lemma throwOnMessage_fail:
  "\<exists>r\<in>set rs. r \<noteq> Inr None \<Longrightarrow>
   \<exists>r\<in>set rs. r \<noteq> Inr None \<and>
     throwOnMessage rs = Inl (case r of Inl e \<Rightarrow> e | Inr m \<Rightarrow> JsError (the m))"
proof (induction rs rule: throwOnMessage.induct)
  case 1
  then show ?case by simp
next
  case (2 e rs)
  then show ?case by simp
next
  case (3 msg rs)
  then show ?case by simp
next
  case (4 rs)
  then have "\<exists>r\<in>set rs. r \<noteq> Inr None" by simp
  with 4 obtain r where "r \<in> set rs" "r \<noteq> Inr None"
    "throwOnMessage rs = Inl (case r of Inl e \<Rightarrow> e | Inr m \<Rightarrow> JsError (the m))"
    by blast
  then show ?case by auto
qed

lemma set_validate_merged:
  "set (completionOrder (map arrival [0..<length checks] @ [0])
          (map (\<lambda>(v, msg). map_sum id (returnIfFalse msg) v) checks @ [Inr None]))
   = insert (Inr None) (checked ` set checks)"
proof -
  have "(\<lambda>(v, msg). map_sum id (returnIfFalse msg) v) = checked"
    by (auto simp: checked_def fun_eq_iff)
  then show ?thesis
    using set_completionOrder [of "map arrival [0..<length checks] @ [0]"
        "map checked checks @ [Inr None]"]
    by simp
qed

lemma validate_all_pass:
  assumes "\<forall>c\<in>set checks. fst c = Inr True"
  shows "validate arrival checks = (map ValidationStarted [0..<length checks], Inr ())"
proof -
  let ?rs = "completionOrder (map arrival [0..<length checks] @ [0])
          (map (\<lambda>(v, msg). map_sum id (returnIfFalse msg) v) checks @ [Inr None])"
  have "\<forall>r\<in>set ?rs. r = Inr None"
    unfolding set_validate_merged using assms by (auto simp: checked_pass)
  then have t: "throwOnMessage ?rs = Inr (replicate (length ?rs) ())"
    by (rule throwOnMessage_pass)
  have "length ?rs = Suc (length checks)"
    by (simp add: completionOrder_def)
  with t have "last_obs (throwOnMessage ?rs) = Inr ()"
    by (simp add: last_obs_def)
  then show ?thesis by (simp add: validate_def)
qed

lemma validate_some_fail:
  assumes "\<exists>c\<in>set checks. fst c \<noteq> Inr True"
  shows "\<exists>c\<in>set checks. fst c \<noteq> Inr True \<and>
    validate arrival checks = (map ValidationStarted [0..<length checks], Inl (abort_of c))"
proof -
  let ?rs = "completionOrder (map arrival [0..<length checks] @ [0])
          (map (\<lambda>(v, msg). map_sum id (returnIfFalse msg) v) checks @ [Inr None])"
  from assms have "\<exists>r\<in>set ?rs. r \<noteq> Inr None"
    unfolding set_validate_merged by (auto simp: checked_pass)
  then obtain r where r: "r \<in> set ?rs" "r \<noteq> Inr None"
    and t: "throwOnMessage ?rs = Inl (case r of Inl e \<Rightarrow> e | Inr m \<Rightarrow> JsError (the m))"
    using throwOnMessage_fail [of ?rs] by blast
  from r obtain c where c: "c \<in> set checks" "checked c = r"
    unfolding set_validate_merged by auto
  from r(2) c(2) have nt: "fst c \<noteq> Inr True"
    using checked_pass [of c] by auto
  have "abort_of c = (case r of Inl e \<Rightarrow> e | Inr m \<Rightarrow> JsError (the m))"
    using nt c(2)
    by (cases c; cases "fst c") (auto simp: checked_def returnIfFalse_def)
  with t have "validate arrival checks =
      (map ValidationStarted [0..<length checks], Inl (abort_of c))"
    by (simp add: validate_def last_obs_def)
  with c nt show ?thesis by blast
qed

text \<open>
  C9. Every registered check is started, whatever the checks deliver. When some check
  does not pass (it delivers anything but \<^verbatim>\<open>true\<close>, or fails), the pipeline aborts with
  what such a check aborts with and \<^verbatim>\<open>runCmd\<close> is not called; when the checks all deliver a
  boolean and one of them delivers \<^verbatim>\<open>false\<close>, the pipeline aborts with the message
  registered with a check that delivered \<^verbatim>\<open>false\<close>. When every check passes, \<^verbatim>\<open>runCmd\<close> is
  called after the checks and the pipeline delivers what it delivers.
\<close>

theorem validation_failure_aborts_before_runCmd:
  "take (length checks) (fst (run arrival checks runCmd)) =
      map ValidationStarted [0..<length checks] \<and>
   ((\<exists>c\<in>set checks. fst c \<noteq> Inr True) \<longrightarrow>
      RunCmd \<notin> set (fst (run arrival checks runCmd)) \<and>
      (\<exists>c\<in>set checks. fst c \<noteq> Inr True \<and>
         snd (run arrival checks runCmd) = Inl (abort_of c))) \<and>
   ((\<exists>c\<in>set checks. fst c = Inr False) \<and> (\<forall>c\<in>set checks. \<exists>b. fst c = Inr b) \<longrightarrow>
      (\<exists>msg. (Inr False, msg) \<in> set checks \<and>
         snd (run arrival checks runCmd) = Inl (JsError msg))) \<and>
   ((\<forall>c\<in>set checks. fst c = Inr True) \<longrightarrow>
      run arrival checks runCmd =
        (map ValidationStarted [0..<length checks] @ RunCmd # fst runCmd, snd runCmd))"
proof (cases "\<forall>c\<in>set checks. fst c = Inr True")
  case True
  then have "run arrival checks runCmd =
        (map ValidationStarted [0..<length checks] @ RunCmd # fst runCmd, snd runCmd)"
    by (simp add: run_def switchMap_def validate_all_pass)
  with True show ?thesis by auto
next
  case False
  then have "\<exists>c\<in>set checks. fst c \<noteq> Inr True" by simp
  then obtain c where c: "c \<in> set checks" "fst c \<noteq> Inr True"
    and v: "validate arrival checks =
      (map ValidationStarted [0..<length checks], Inl (abort_of c))"
    using validate_some_fail [of checks arrival] by blast
  from v have r: "run arrival checks runCmd =
      (map ValidationStarted [0..<length checks], Inl (abort_of c))"
    by (simp add: run_def switchMap_def)
  have msg: "\<exists>msg. (Inr False, msg) \<in> set checks \<and>
         snd (run arrival checks runCmd) = Inl (JsError msg)"
    if "\<forall>c\<in>set checks. \<exists>b. fst c = Inr b"
  proof -
    from that c obtain b where "fst c = Inr b" and "b \<noteq> True" by auto
    then have "c = (Inr False, snd c)" by (cases c) simp
    with c(1) r show ?thesis
      by (metis abort_of.simps(2) snd_conv)
  qed
  from r c False msg show ?thesis by auto
qed

text \<open>
  C9 at the two checks every command registers: with the base branch missing the run
  aborts with that check's message and without \<^verbatim>\<open>runCmd\<close>; with both checks passing
  \<^verbatim>\<open>runCmd\<close> is called.
\<close>

theorem validation_failure_aborts_before_runCmd_witness:
  "run (\<lambda>i. 1 - i) checks_no_base_branch ([], Inr Void) =
     ([ValidationStarted 0, ValidationStarted 1],
      Inl (JsError ''Couldn't find any branch that matched master to use as base branch'')) \<and>
   RunCmd \<notin> set (fst (run (\<lambda>i. 1 - i) checks_no_base_branch ([], Inr Void))) \<and>
   run (\<lambda>i. 1 - i) checks_passing ([], Inr Void) =
     ([ValidationStarted 0, ValidationStarted 1, RunCmd], Inr Void)"
  using validation_failure_aborts_before_runCmd
      [of checks_no_base_branch "\<lambda>i. 1 - i" "([], Inr Void)"]
    validation_failure_aborts_before_runCmd
      [of checks_passing "\<lambda>i. 1 - i" "([], Inr Void)"]
  by (simp add: checks_no_base_branch_def checks_passing_def run_def validate_def
      switchMap_def completionOrder_def returnIfFalse_def last_obs_def)

section \<open>Properties of the VCS adapter\<close>

lemmas git_defs = createBranchAndStashChanges_def git_then_def git_step_def

lemmas gitMocks_defs = gitMocks_def gitMocks_dirty_def gitMocks_no_remotes_def
  test_config_def

text \<open>
  C3. When the working tree is dirty (\<^verbatim>\<open>status\<close> reports at least one changed file), the
  call that follows the fetch and the status is the stash with the fixed message
  \<^verbatim>\<open>Auto generated by fotingo\<close>, and wherever a checkout is made that stash has been made
  before it. When the working tree is clean, no stash is made at all.
\<close>

theorem stash_only_when_dirty:
  "(\<forall>files. sg_fetch g = Inr () \<and> sg_status g = Inr files \<and> files \<noteq> [] \<longrightarrow>
      take 3 (fst (createBranchAndStashChanges cfg g name)) =
        [Fetch (remote cfg) (baseBranch cfg), Status,
         Stash [''save'', ''--include-untracked'', ''Auto generated by fotingo'']]) \<and>
   (\<forall>files. sg_status g = Inr files \<and> files \<noteq> [] \<longrightarrow>
      (\<forall>n h. CheckoutBranch n h \<in> set (fst (createBranchAndStashChanges cfg g name)) \<longrightarrow>
         Stash [''save'', ''--include-untracked'', ''Auto generated by fotingo''] \<in>
           set (takeWhile (\<lambda>c. c \<noteq> CheckoutBranch n h)
                  (fst (createBranchAndStashChanges cfg g name))))) \<and>
   (sg_status g = Inr [] \<longrightarrow>
      (\<forall>a. Stash a \<notin> set (fst (createBranchAndStashChanges cfg g name))))"
  by (auto simp: git_defs stashArguments_def split: sum.splits prod.splits)

text \<open>C3 at the mocks of the test, with a changed file and with a clean tree.\<close>

theorem stash_only_when_dirty_witness:
  "sg_status gitMocks_dirty = Inr [''some file.txt''] \<and>
   take 3 (fst (createBranchAndStashChanges test_config gitMocks_dirty ''FOTINGO-1'')) =
     [Fetch ''origin'' ''master'', Status,
      Stash [''save'', ''--include-untracked'', ''Auto generated by fotingo'']] \<and>
   CheckoutBranch ''FOTINGO-1'' ''547433c''
     \<in> set (fst (createBranchAndStashChanges test_config gitMocks_dirty ''FOTINGO-1'')) \<and>
   Stash [''save'', ''--include-untracked'', ''Auto generated by fotingo'']
     \<in> set (takeWhile (\<lambda>c. c \<noteq> CheckoutBranch ''FOTINGO-1'' ''547433c'')
              (fst (createBranchAndStashChanges test_config gitMocks_dirty ''FOTINGO-1''))) \<and>
   sg_status gitMocks = Inr [] \<and>
   Stash [''save'', ''--include-untracked'', ''Auto generated by fotingo'']
     \<notin> set (fst (createBranchAndStashChanges test_config gitMocks ''FOTINGO-1''))"
  using stash_only_when_dirty [of gitMocks_dirty test_config "''FOTINGO-1''"]
    stash_only_when_dirty [of gitMocks test_config "''FOTINGO-1''"]
  by (simp add: git_defs gitMocks_defs getRemoteBranch_def stashArguments_def)

text \<open>
  C4. The first call of every invocation is the fetch of the base branch from the
  remote. When the fetch, the status, the stash of a dirty tree and
  \<^verbatim>\<open>log -n1 remotes/<remote>/<baseBranch>\<close> succeed, the invocation ends with the checkout
  of the branch of the name asked for from the hash that log answered with, and its
  result is the result of that checkout. No checkout is made in any other way: a checkout,
  wherever one is made, is of that name, from the hash of that log, after that log, and
  the fetch comes before the log. The start point is never anything but the latest commit
  of the remote base branch.
\<close>

theorem fetch_then_checkout_remote_tip:
  "fst (createBranchAndStashChanges cfg g name) \<noteq> [] \<and>
   hd (fst (createBranchAndStashChanges cfg g name)) = Fetch (remote cfg) (baseBranch cfg) \<and>
   (\<forall>files h.
      sg_fetch g = Inr () \<and> sg_status g = Inr files \<and>
      (files \<noteq> [] \<longrightarrow>
         sg_stash g [''save'', ''--include-untracked'', ''Auto generated by fotingo''] = Inr ()) \<and>
      sg_log g [''-n1'', ''remotes/'' @ remote cfg @ ''/'' @ baseBranch cfg] = Inr h \<longrightarrow>
      fst (createBranchAndStashChanges cfg g name) =
        [Fetch (remote cfg) (baseBranch cfg), Status]
          @ (if files \<noteq> []
             then [Stash [''save'', ''--include-untracked'', ''Auto generated by fotingo'']]
             else [])
          @ [Log [''-n1'', ''remotes/'' @ remote cfg @ ''/'' @ baseBranch cfg],
             CheckoutBranch name h] \<and>
      snd (createBranchAndStashChanges cfg g name) =
        map_sum mapError id (sg_checkoutBranch g name h)) \<and>
   (\<forall>n h. CheckoutBranch n h \<in> set (fst (createBranchAndStashChanges cfg g name)) \<longrightarrow>
      n = name \<and>
      sg_log g [''-n1'', ''remotes/'' @ remote cfg @ ''/'' @ baseBranch cfg] = Inr h \<and>
      Log [''-n1'', ''remotes/'' @ remote cfg @ ''/'' @ baseBranch cfg] \<in>
        set (takeWhile (\<lambda>c. c \<noteq> CheckoutBranch n h)
               (fst (createBranchAndStashChanges cfg g name))) \<and>
      Fetch (remote cfg) (baseBranch cfg) \<in>
        set (takeWhile (\<lambda>c. c \<noteq> Log [''-n1'', ''remotes/'' @ remote cfg @ ''/'' @ baseBranch cfg])
               (fst (createBranchAndStashChanges cfg g name))))"
proof (intro conjI)
  show "fst (createBranchAndStashChanges cfg g name) \<noteq> []"
    by (auto simp: git_defs split: sum.splits prod.splits)
  show "hd (fst (createBranchAndStashChanges cfg g name)) = Fetch (remote cfg) (baseBranch cfg)"
    by (auto simp: git_defs split: sum.splits prod.splits)
  show "\<forall>files h.
      sg_fetch g = Inr () \<and> sg_status g = Inr files \<and>
      (files \<noteq> [] \<longrightarrow>
         sg_stash g [''save'', ''--include-untracked'', ''Auto generated by fotingo''] = Inr ()) \<and>
      sg_log g [''-n1'', ''remotes/'' @ remote cfg @ ''/'' @ baseBranch cfg] = Inr h \<longrightarrow>
      fst (createBranchAndStashChanges cfg g name) =
        [Fetch (remote cfg) (baseBranch cfg), Status]
          @ (if files \<noteq> []
             then [Stash [''save'', ''--include-untracked'', ''Auto generated by fotingo'']]
             else [])
          @ [Log [''-n1'', ''remotes/'' @ remote cfg @ ''/'' @ baseBranch cfg],
             CheckoutBranch name h] \<and>
      snd (createBranchAndStashChanges cfg g name) =
        map_sum mapError id (sg_checkoutBranch g name h)"
    by (simp add: git_defs getRemoteBranch_def stashArguments_def)
  show "\<forall>n h. CheckoutBranch n h \<in> set (fst (createBranchAndStashChanges cfg g name)) \<longrightarrow>
      n = name \<and>
      sg_log g [''-n1'', ''remotes/'' @ remote cfg @ ''/'' @ baseBranch cfg] = Inr h \<and>
      Log [''-n1'', ''remotes/'' @ remote cfg @ ''/'' @ baseBranch cfg] \<in>
        set (takeWhile (\<lambda>c. c \<noteq> CheckoutBranch n h)
               (fst (createBranchAndStashChanges cfg g name))) \<and>
      Fetch (remote cfg) (baseBranch cfg) \<in>
        set (takeWhile (\<lambda>c. c \<noteq> Log [''-n1'', ''remotes/'' @ remote cfg @ ''/'' @ baseBranch cfg])
               (fst (createBranchAndStashChanges cfg g name)))"
    by (cases "sg_fetch g"; cases "sg_status g"; cases "sg_stash g stashArguments";
        cases "sg_log g [''-n1'', ''remotes/'' @ remote cfg @ ''/'' @ baseBranch cfg]")
       (auto simp: git_defs getRemoteBranch_def split: sum.splits prod.splits)
qed

text \<open>
  C4 at the mocks of the test, with a clean tree and with a changed file: the branch is
  created from \<^verbatim>\<open>547433c\<close>, the hash the log of \<^verbatim>\<open>remotes/origin/master\<close> answers with.
\<close>

theorem fetch_then_checkout_remote_tip_witness:
  "hd (fst (createBranchAndStashChanges test_config gitMocks ''FOTINGO-1''))
     = Fetch ''origin'' ''master'' \<and>
   sg_fetch gitMocks = Inr () \<and>
   sg_status gitMocks = Inr [] \<and>
   sg_log gitMocks [''-n1'', ''remotes/origin/master''] = Inr ''547433c'' \<and>
   createBranchAndStashChanges test_config gitMocks ''FOTINGO-1'' =
     ([Fetch ''origin'' ''master'', Status, Log [''-n1'', ''remotes/origin/master''],
       CheckoutBranch ''FOTINGO-1'' ''547433c''], Inr ()) \<and>
   sg_status gitMocks_dirty = Inr [''some file.txt''] \<and>
   sg_stash gitMocks_dirty [''save'', ''--include-untracked'', ''Auto generated by fotingo'']
     = Inr () \<and>
   createBranchAndStashChanges test_config gitMocks_dirty ''FOTINGO-1'' =
     ([Fetch ''origin'' ''master'', Status,
       Stash [''save'', ''--include-untracked'', ''Auto generated by fotingo''],
       Log [''-n1'', ''remotes/origin/master''],
       CheckoutBranch ''FOTINGO-1'' ''547433c''], Inr ()) \<and>
   Log [''-n1'', ''remotes/origin/master'']
     \<in> set (takeWhile (\<lambda>c. c \<noteq> CheckoutBranch ''FOTINGO-1'' ''547433c'')
              (fst (createBranchAndStashChanges test_config gitMocks ''FOTINGO-1''))) \<and>
   Fetch ''origin'' ''master''
     \<in> set (takeWhile (\<lambda>c. c \<noteq> Log [''-n1'', ''remotes/origin/master''])
              (fst (createBranchAndStashChanges test_config gitMocks ''FOTINGO-1'')))"
proof -
  have clean: "sg_fetch gitMocks = Inr ()" "sg_status gitMocks = Inr []"
    "sg_log gitMocks [''-n1'', ''remotes/origin/master''] = Inr ''547433c''"
    "sg_checkoutBranch gitMocks ''FOTINGO-1'' ''547433c'' = Inr ()"
    by (simp_all add: gitMocks_def)
  have dirty: "sg_fetch gitMocks_dirty = Inr ()"
    "sg_status gitMocks_dirty = Inr [''some file.txt'']"
    "sg_stash gitMocks_dirty [''save'', ''--include-untracked'', ''Auto generated by fotingo'']
       = Inr ()"
    "sg_log gitMocks_dirty [''-n1'', ''remotes/origin/master''] = Inr ''547433c''"
    "sg_checkoutBranch gitMocks_dirty ''FOTINGO-1'' ''547433c'' = Inr ()"
    by (simp_all add: gitMocks_dirty_def gitMocks_def)
  have cfg: "remote test_config = ''origin''" "baseBranch test_config = ''master''"
    by (simp_all add: test_config_def)
  note c4 = fetch_then_checkout_remote_tip [of test_config gitMocks "''FOTINGO-1''"]
  note d4 = fetch_then_checkout_remote_tip [of test_config gitMocks_dirty "''FOTINGO-1''"]
  from c4 [THEN conjunct2, THEN conjunct1]
  have 1: "hd (fst (createBranchAndStashChanges test_config gitMocks ''FOTINGO-1''))
     = Fetch ''origin'' ''master''"
    by (simp only: cfg)
  from c4 [THEN conjunct2, THEN conjunct2, THEN conjunct1, rule_format,
      of "[]" "''547433c''"] clean
  have 2: "createBranchAndStashChanges test_config gitMocks ''FOTINGO-1'' =
     ([Fetch ''origin'' ''master'', Status, Log [''-n1'', ''remotes/origin/master''],
       CheckoutBranch ''FOTINGO-1'' ''547433c''], Inr ())"
    by (simp add: cfg prod_eq_iff)
  from d4 [THEN conjunct2, THEN conjunct2, THEN conjunct1, rule_format,
      of "[''some file.txt'']" "''547433c''"] dirty
  have 3: "createBranchAndStashChanges test_config gitMocks_dirty ''FOTINGO-1'' =
     ([Fetch ''origin'' ''master'', Status,
       Stash [''save'', ''--include-untracked'', ''Auto generated by fotingo''],
       Log [''-n1'', ''remotes/origin/master''],
       CheckoutBranch ''FOTINGO-1'' ''547433c''], Inr ())"
    by (simp add: cfg prod_eq_iff)
  from 1 2 3 clean dirty show ?thesis by simp
qed

text \<open>
  C6. With the configured remotes at hand: when one of them has the name asked for,
  \<^verbatim>\<open>getRemote\<close> returns a remote of that name; when none has but there is a remote, it
  returns the first one; when there is no remote, it fails (with \<^verbatim>\<open>NO_REMOTE\<close>).
\<close>

theorem getRemote_named_or_first_or_error:
  assumes "sg_getRemotes g True = Inr rs"
  shows "((\<exists>r\<in>set rs. r_name r = name) \<longrightarrow>
            (\<exists>r\<in>set rs. r_name r = name \<and> snd (getRemote g name) = Inr r)) \<and>
         ((\<forall>r\<in>set rs. r_name r \<noteq> name) \<and> rs \<noteq> [] \<longrightarrow>
            snd (getRemote g name) = Inr (hd rs)) \<and>
         (rs = [] \<longrightarrow> (\<exists>e. snd (getRemote g name) = Inl e \<and> gcode e = NO_REMOTE))"
proof -
  have res: "snd (getRemote g name) =
      (case find (\<lambda>r. r_name r = name) rs of
         Some r \<Rightarrow> Inr r
       | None \<Rightarrow>
           (case rs of
              [] \<Rightarrow> Inl \<lparr> gcode = NO_REMOTE,
                         gmessage = ''The repository does not have a remote'' \<rparr>
            | r # _ \<Rightarrow> Inr r))"
    using assms by (simp add: getRemote_def git_then_def git_step_def)
  have named: "\<exists>r\<in>set rs. r_name r = name \<and> snd (getRemote g name) = Inr r"
    if "\<exists>r\<in>set rs. r_name r = name"
  proof -
    from that obtain r where "find (\<lambda>r. r_name r = name) rs = Some r"
      by (cases "find (\<lambda>r. r_name r = name) rs") (auto simp: find_None_iff)
    moreover from this have "r \<in> set rs \<and> r_name r = name"
      by (auto simp: find_Some_iff)
    ultimately show ?thesis using res by auto
  qed
  have fallback: "snd (getRemote g name) = Inr (hd rs)"
    if "\<forall>r\<in>set rs. r_name r \<noteq> name" and "rs \<noteq> []"
  proof -
    from that(1) have "find (\<lambda>r. r_name r = name) rs = None"
      by (auto simp: find_None_iff)
    with that(2) res show ?thesis by (cases rs) simp_all
  qed
  have none: "\<exists>e. snd (getRemote g name) = Inl e \<and> gcode e = NO_REMOTE" if "rs = []"
    using that res by simp
  from named fallback none show ?thesis by blast
qed

text \<open>
  C6 at the mocks of the test: \<^verbatim>\<open>origin\<close> is found, \<^verbatim>\<open>some_remote\<close> falls back to the
  first remote, and without remotes the call fails.
\<close>

theorem getRemote_named_or_first_or_error_witness:
  "sg_getRemotes gitMocks True = Inr [test_remote] \<and>
   r_name test_remote = ''origin'' \<and>
   snd (getRemote gitMocks ''origin'') = Inr test_remote \<and>
   snd (getRemote gitMocks ''some_remote'') = Inr test_remote \<and>
   sg_getRemotes gitMocks_no_remotes True = Inr [] \<and>
   snd (getRemote gitMocks_no_remotes ''origin'')
     = Inl \<lparr> gcode = NO_REMOTE, gmessage = ''The repository does not have a remote'' \<rparr>"
  using getRemote_named_or_first_or_error [of gitMocks "[test_remote]" "''origin''"]
    getRemote_named_or_first_or_error [of gitMocks "[test_remote]" "''some_remote''"]
    getRemote_named_or_first_or_error [of gitMocks_no_remotes "[]" "''origin''"]
  by (simp add: gitMocks_defs test_remote_def getRemote_def git_then_def git_step_def)

section \<open>Properties of the cacheable decorator\<close>

text \<open>
  C10. When the value the store has for the computed key is falsy, the wrapper calls
  the decorated method and resolves to what it resolves to. The wrapper answers without
  calling the method exactly when the cache is enabled and the stored value is truthy,
  and the answer is then that stored value.
\<close>

theorem falsy_cached_value_is_a_miss:
  "(\<not> truthy (keyv_get store now (cacheKey c args)) \<longrightarrow>
      invocations (cachedFunction c method store now args) = [args] \<and>
      outcome (cachedFunction c method store now args) = method args) \<and>
   (invocations (cachedFunction c method store now args) = [] \<longleftrightarrow>
      \<not> isCacheDisabled c \<and> truthy (keyv_get store now (cacheKey c args))) \<and>
   (invocations (cachedFunction c method store now args) = [] \<longrightarrow>
      outcome (cachedFunction c method store now args)
        = Inr (keyv_get store now (cacheKey c args)))"
  by (auto simp: cachedFunction_def Let_def split: sum.splits)

text \<open>
  C10 at a store that holds \<^verbatim>\<open>false\<close> for the key (the method is called again) and at
  one that holds a non-empty string (the string is served).
\<close>

theorem falsy_cached_value_is_a_miss_witness:
  "cacheKey demo_setup [] = ''Jira_isLoggedIn'' \<and>
   keyv_get demo_store 0 (cacheKey demo_setup []) = JBool False \<and>
   \<not> truthy (JBool False) \<and>
   invocations (cachedFunction demo_setup demo_method demo_store 0 []) = [[]] \<and>
   outcome (cachedFunction demo_setup demo_method demo_store 0 []) = Inr (JBool True) \<and>
   keyv_get demo_store_hit 0 (cacheKey demo_setup []) = JStr ''yes'' \<and>
   truthy (JStr ''yes'') \<and>
   invocations (cachedFunction demo_setup demo_method demo_store_hit 0 []) = [] \<and>
   outcome (cachedFunction demo_setup demo_method demo_store_hit 0 []) = Inr (JStr ''yes'')"
  using falsy_cached_value_is_a_miss [of demo_store 0 demo_setup "[]" demo_method]
    falsy_cached_value_is_a_miss [of demo_store_hit 0 demo_setup "[]" demo_method]
  by (simp add: cacheKey_def keyArguments_def keyv_get_def demo_setup_def demo_store_def
      demo_store_hit_def demo_method_def)

text \<open>
  A consequence: a falsy result is stored but never served. After a call that computed
  and stored a falsy value, a later call with the same arguments, at any time, calls the
  decorated method again.
\<close>

lemma falsy_result_is_computed_again:
  assumes "\<not> isCacheDisabled c"
    and "\<not> truthy (keyv_get store now (cacheKey c args))"
    and "method args = Inr v"
    and "\<not> truthy v"
  shows "invocations
           (cachedFunction c method
              (store_after (cachedFunction c method store now args)) later args) = [args]"
proof -
  have "store_after (cachedFunction c method store now args)
      = keyv_set store now (cacheKey c args) v (ttl_of c)"
    using assms by (simp add: cachedFunction_def Let_def)
  moreover have "\<not> truthy (keyv_get (keyv_set store now (cacheKey c args) v (ttl_of c))
      later (cacheKey c args))"
    using assms(4) by (simp add: keyv_get_def keyv_set_def split: option.splits)
  ultimately show ?thesis
    using assms(1,3) by (simp add: cachedFunction_def Let_def)
qed

end
